theory Spec2Isabelle
  imports Complex_Main
begin

section \<open>JavaScript values used by the components\<close>

subsection \<open>Map objects\<close>

text \<open>
  A JavaScript \<^verbatim>\<open>Map\<close> keeps its entries in insertion order and holds every key
  once. It is modelled as an association list: \<open>Map_set\<close> replaces the value of a key
  that is present, in place, and appends a key that is new.
\<close>

type_synonym ('k, 'v) jsmap = "('k \<times> 'v) list"

fun Map_set :: "'k \<Rightarrow> 'v \<Rightarrow> ('k, 'v) jsmap \<Rightarrow> ('k, 'v) jsmap" where
  "Map_set k v [] = [(k, v)]"
| "Map_set k v (e # es) = (if fst e = k then (k, v) # es else e # Map_set k v es)"

definition Map_has :: "('k, 'v) jsmap \<Rightarrow> 'k \<Rightarrow> bool" where
  "Map_has m k = (k \<in> set (map fst m))"

definition Map_get :: "('k, 'v) jsmap \<Rightarrow> 'k \<Rightarrow> 'v option" where
  "Map_get m k = map_of m k"

definition Map_values :: "('k, 'v) jsmap \<Rightarrow> 'v list" where
  "Map_values m = map snd m"

text \<open>\<^verbatim>\<open>new Map(entries)\<close>: the entries are set one after the other, so a later entry
  of a key overwrites an earlier one.\<close>

definition new_Map :: "('k \<times> 'v) list \<Rightarrow> ('k, 'v) jsmap" where
  "new_Map entries = foldl (\<lambda>m e. Map_set (fst e) (snd e) m) [] entries"

subsection \<open>Numbers in template literals\<close>

text \<open>The decimal rendering of a non-negative whole number, as a template literal
  \<^verbatim>\<open>`${n}`\<close> produces it.\<close>

definition digit_char :: "nat \<Rightarrow> char" where
  "digit_char d = ''0123456789'' ! d"

fun number_toString :: "nat \<Rightarrow> string" where
  "number_toString n =
     (if n < 10 then [digit_char n]
      else number_toString (n div 10) @ [digit_char (n mod 10)])"

declare number_toString.simps [simp del]

section \<open>The attendance table (attendance-table.tsx)\<close>

subsection \<open>Data\<close>

record student =
  student_id :: nat
  student_name :: string
  rollNumber :: string

text \<open>An attendance record, as fetched for today and as submitted in a batch.\<close>

record attendance_record =
  studentId :: nat
  rec_courseId :: nat
  rec_academicYearId :: nat
  rec_date :: string
  status :: string
  markedBy :: string

text \<open>
  The component: its props (\<open>students\<close>, \<open>courseId\<close>, \<open>academicYearId\<close>), the date
  it computes, the result of the query for today's attendance (\<open>todayAttendance\<close>, the
  committed records) and its one piece of local state, \<open>attendanceState\<close> (the staged,
  pending marks).
\<close>

record workspace =
  students :: "student list"
  courseId :: nat
  academicYearId :: nat
  currentDate :: string
  todayAttendance :: "attendance_record list"
  attendanceState :: "(nat, string) jsmap"

text \<open>What a handler does to the outside: a toast (title, description, destructive
  variant), the \<open>onAttendanceChange\<close> callback of the page, an invalidation of a query
  key, and a request to the backend (method, URL, records of the body).\<close>

datatype effect =
    Toast string string bool
  | OnAttendanceChange nat nat nat
  | InvalidateQueries string
  | ApiRequest string string "attendance_record list"

text \<open>The response of \<^verbatim>\<open>POST /api/attendance/bulk\<close>.\<close>

record bulk_result =
  success :: nat
  errors :: nat

subsection \<open>Derived values and handlers\<close>

definition existingAttendance :: "workspace \<Rightarrow> (nat, string) jsmap" where
  "existingAttendance ws = new_Map (map (\<lambda>r. (studentId r, status r)) (todayAttendance ws))"

definition count_status :: "string \<Rightarrow> (nat, string) jsmap \<Rightarrow> nat" where
  "count_status s m = length (filter (\<lambda>st. st = s) (Map_values m))"

text \<open>\<open>updateStats\<close> reads \<open>attendanceState\<close> and \<open>existingAttendance\<close> of the render
  whose closure it belongs to, and hands the three counts to the page.\<close>

definition updateStats :: "workspace \<Rightarrow> effect" where
  "updateStats ws =
     OnAttendanceChange
       (count_status ''present'' (attendanceState ws) + count_status ''present'' (existingAttendance ws))
       (count_status ''absent'' (attendanceState ws) + count_status ''absent'' (existingAttendance ws))
       (count_status ''late'' (attendanceState ws) + count_status ''late'' (existingAttendance ws))"

text \<open>
  \<open>markAttendance\<close>. The state update is \<^verbatim>\<open>setAttendanceState(prev => new Map(prev.set(studentId, status)))\<close>:
  the updater writes into the previous Map object before copying it. \<open>updateStats\<close>,
  called right after, reads the Map of the current render, which is that same object;
  whether it already sees the new entry depends on whether React ran the updater at
  once or queued it for the next render. The flag \<open>updaterRanEagerly\<close> stands for
  that choice; the new state is the same in both cases.
\<close>

definition markAttendance :: "bool \<Rightarrow> workspace \<Rightarrow> nat \<Rightarrow> string \<Rightarrow> workspace \<times> effect list" where
  "markAttendance updaterRanEagerly ws sid st =
     (if Map_has (existingAttendance ws) sid
      then (ws, [Toast ''Error'' ''Attendance already marked for this student today'' True])
      else
        (let ws' = ws\<lparr>attendanceState := Map_set sid st (attendanceState ws)\<rparr>
         in (ws', [updateStats (if updaterRanEagerly then ws' else ws)])))"

text \<open>The loop of \<open>markAllPresent\<close> over the roster: a student without a committed
  record is set to \<open>present\<close> in the new Map.\<close>

definition forEach_student ::
  "(nat, string) jsmap \<Rightarrow> (nat, string) jsmap \<Rightarrow> student list \<Rightarrow> (nat, string) jsmap" where
  "forEach_student existing newState roster =
     foldl (\<lambda>m s. if \<not> Map_has existing (student_id s)
                   then Map_set (student_id s) ''present'' m else m)
           newState roster"

text \<open>\<open>markAllPresent\<close> copies the current Map, runs the loop on the copy, installs it
  and calls \<open>updateStats\<close>, which reads the Map of the current render (the copy is a
  different object).\<close>

definition markAllPresent :: "workspace \<Rightarrow> workspace \<times> effect list" where
  "markAllPresent ws =
     (let newState = forEach_student (existingAttendance ws) (attendanceState ws) (students ws)
      in (ws\<lparr>attendanceState := newState\<rparr>, [updateStats ws]))"

definition pendingRecords :: "workspace \<Rightarrow> attendance_record list" where
  "pendingRecords ws =
     map (\<lambda>e. \<lparr>studentId = fst e, rec_courseId = courseId ws,
               rec_academicYearId = academicYearId ws, rec_date = currentDate ws,
               status = snd e, markedBy = ''faculty''\<rparr>)
         (attendanceState ws)"

text \<open>\<open>saveAttendance\<close>: nothing to save is reported by a toast; otherwise the pending
  records go to the bulk mutation, whose \<open>mutationFn\<close> posts them.\<close>

definition saveAttendance :: "workspace \<Rightarrow> workspace \<times> effect list" where
  "saveAttendance ws =
     (if length (pendingRecords ws) = 0
      then (ws, [Toast ''No Changes'' ''No new attendance records to save'' False])
      else (ws, [ApiRequest ''POST'' ''/api/attendance/bulk'' (pendingRecords ws)]))"

definition bulk_onSuccess :: "workspace \<Rightarrow> bulk_result \<Rightarrow> workspace \<times> effect list" where
  "bulk_onSuccess ws d =
     (ws\<lparr>attendanceState := []\<rparr>,
      [InvalidateQueries ''/api/attendance'',
       updateStats ws,
       Toast ''Success''
         (number_toString (success d) @ '' attendance records saved. '' @
          number_toString (errors d) @ '' errors.'') False])"

text \<open>\<^verbatim>\<open>error.message || "Failed to save bulk attendance"\<close>: a missing or empty
  message falls back to the fixed text.\<close>

definition bulk_onError :: "workspace \<Rightarrow> string option \<Rightarrow> workspace \<times> effect list" where
  "bulk_onError ws message =
     (ws, [Toast ''Error''
            (case message of None \<Rightarrow> ''Failed to save bulk attendance''
             | Some m \<Rightarrow> if m = [] then ''Failed to save bulk attendance'' else m)
            True])"

definition getStudentStatus :: "workspace \<Rightarrow> nat \<Rightarrow> string" where
  "getStudentStatus ws sid =
     (if Map_has (attendanceState ws) sid then the (Map_get (attendanceState ws) sid)
      else if Map_has (existingAttendance ws) sid then the (Map_get (existingAttendance ws) sid)
      else ''not-marked'')"

definition isMarked :: "workspace \<Rightarrow> nat \<Rightarrow> bool" where
  "isMarked ws sid = (Map_has (existingAttendance ws) sid \<or> Map_has (attendanceState ws) sid)"

text \<open>The table body: a row of a student that is not marked offers the three mark
  buttons (present, late, absent); a marked row shows the text \<^verbatim>\<open>Marked\<close> and no
  button. These clicks are the only calls of \<open>markAttendance\<close> in the component.\<close>

definition rowActions :: "workspace \<Rightarrow> (nat \<times> string) list" where
  "rowActions ws =
     concat (map (\<lambda>s. if isMarked ws (student_id s) then []
                       else [(student_id s, ''present''), (student_id s, ''late''),
                             (student_id s, ''absent'')])
                 (students ws))"

subsection \<open>A save, with the collaborator's answer\<close>

text \<open>
  The bulk mutation either resolves, with the counts of the response, or rejects with an
  error (a transport failure, or a response that is not ok). \<open>save\<close> is the click on
  the save button followed by the callback of the mutation. On success the query for
  today's attendance is invalidated, which only starts its refetch: the pending set is
  emptied at once, and the committed records are those of the last fetch until the new
  ones arrive.
\<close>

datatype outcome =
    Resolved bulk_result
  | Rejected "string option"

definition save :: "workspace \<Rightarrow> outcome \<Rightarrow> workspace \<times> effect list" where
  "save ws out =
     (let (ws1, fx1) = saveAttendance ws in
      if length (pendingRecords ws) = 0 then (ws1, fx1)
      else
        (case out of
           Rejected message \<Rightarrow>
             (let (ws2, fx2) = bulk_onError ws1 message in (ws2, fx1 @ fx2))
         | Resolved d \<Rightarrow>
             (let (ws2, fx2) = bulk_onSuccess ws1 d in (ws2, fx1 @ fx2))))"

text \<open>The result of the query for today's attendance arrives: the component renders
  with the new records, its local state untouched.\<close>

definition refetch :: "workspace \<Rightarrow> attendance_record list \<Rightarrow> workspace" where
  "refetch ws fetched = ws\<lparr>todayAttendance := fetched\<rparr>"

subsection \<open>Sequences of events\<close>

text \<open>The clicks of the user (a mark, mark all present, save with the answer of the
  backend) and the arrival of refetched records, in the order in which they happen.\<close>

datatype action =
    Mark bool nat string
  | MarkAll
  | Save outcome
  | Refetch "attendance_record list"

fun step :: "workspace \<Rightarrow> action \<Rightarrow> workspace" where
  "step ws (Mark eager sid st) = fst (markAttendance eager ws sid st)"
| "step ws MarkAll = fst (markAllPresent ws)"
| "step ws (Save out) = fst (save ws out)"
| "step ws (Refetch fetched) = refetch ws fetched"

definition run :: "workspace \<Rightarrow> action list \<Rightarrow> workspace" where
  "run ws acts = foldl step ws acts"

fun handler_action :: "action \<Rightarrow> bool" where
  "handler_action (Refetch fetched) = False"
| "handler_action a = True"

text \<open>The two sets hold no student in common.\<close>

definition disjoint_sets :: "workspace \<Rightarrow> bool" where
  "disjoint_sets ws =
     list_all (\<lambda>sid. \<not> Map_has (attendanceState ws) sid) (map fst (existingAttendance ws))"

section \<open>Academic years (year-management.tsx)\<close>

record academicYear =
  year_id :: nat
  year_name :: string
  isActive :: bool

record year_management =
  years :: "academicYear list"
  isModalOpen :: bool
  editingYear :: "academicYear option"

text \<open>\<open>deleteYearMutation.mutate(id)\<close> sends the request of its \<open>mutationFn\<close>.\<close>

definition deleteYearMutation_mutate :: "nat \<Rightarrow> effect list" where
  "deleteYearMutation_mutate i =
     [ApiRequest ''DELETE'' (''/api/academic-years/'' @ number_toString i) []]"

definition delete_confirm_text :: "academicYear \<Rightarrow> string" where
  "delete_confirm_text year =
     ''Are you sure you want to delete academic year '' @ year_name year @ ''?''"

text \<open>\<open>handleDeleteYear\<close>; the parameter \<open>confirm\<close> is the answer of the user to the
  browser's confirmation dialog for a given text.\<close>

definition handleDeleteYear ::
  "(string \<Rightarrow> bool) \<Rightarrow> year_management \<Rightarrow> academicYear \<Rightarrow> year_management \<times> effect list" where
  "handleDeleteYear confirm ym year =
     (if isActive year
      then (ym, [Toast ''Error'' ''Cannot delete the active academic year'' True])
      else if confirm (delete_confirm_text year)
      then (ym, deleteYearMutation_mutate (year_id year))
      else (ym, []))"

text \<open>The admin page (routed at \<^verbatim>\<open>/admin\<close>) lists the academic years too. The
  delete button of each of its rows calls the \<open>mutate\<close> of its own
  \<open>deleteYearMutation\<close>, which sends the same request, with the id of the year of the
  row.\<close>

definition Admin_deleteYear_onClick :: "academicYear \<Rightarrow> effect list" where
  "Admin_deleteYear_onClick year = deleteYearMutation_mutate (year_id year)"

definition is_delete_request :: "effect \<Rightarrow> bool" where
  "is_delete_request fx =
     (case fx of ApiRequest method url body \<Rightarrow> method = ''DELETE'' | _ \<Rightarrow> False)"

section \<open>The attendance page and the percentage\<close>

subsection \<open>Double-precision arithmetic\<close>

text \<open>
  JavaScript numbers are IEEE 754 doubles. The counts handled here are whole numbers
  below \<open>2 ^ 53\<close>, which are doubles themselves, and their sums are exact. A quotient
  and a product are rounded to the nearest double, ties to the even significand. A
  non-negative double is written \<open>(m, e)\<close> for \<open>m * 2 ^ e\<close>. The quotients and
  products that occur stay far inside the range of normal doubles, so the limits of
  the exponent play no role and are left out.
\<close>

type_synonym double = "int \<times> int"

function bit_length :: "int \<Rightarrow> nat" where
  "bit_length n = (if n \<le> 0 then 0 else Suc (bit_length (n div 2)))"
  by pat_completeness auto
termination
  by (relation "measure nat") auto

declare bit_length.simps [simp del]

text \<open>The integer nearest to \<open>n / d\<close> (for \<open>0 < d\<close>), the even one of two that are
  equally near.\<close>

definition round_half_even :: "int \<Rightarrow> int \<Rightarrow> int" where
  "round_half_even n d =
     (let f = n div d; r = n mod d in
      if 2 * r < d then f
      else if d < 2 * r then f + 1
      else if even f then f else f + 1)"

text \<open>
  The double nearest to \<open>a / b * 2 ^ k\<close>, for \<open>0 \<le> a\<close> and \<open>0 < b\<close>: the exponent
  \<open>e1\<close> is the one that places \<open>a / b / 2 ^ e1\<close> between \<open>2 ^ 52\<close> and \<open>2 ^ 53\<close>,
  so that the rounded significand has 53 bits.
\<close>

definition to_double :: "int \<Rightarrow> int \<Rightarrow> int \<Rightarrow> double" where
  "to_double a b k =
     (if a = 0 then (0, 0)
      else
        (let e0 = int (bit_length a) - int (bit_length b) - 53;
             n0 = (if e0 < 0 then a * 2 ^ nat (- e0) else a);
             d0 = (if e0 < 0 then b else b * 2 ^ nat e0);
             e1 = (if 2 ^ 53 * d0 \<le> n0 then e0 + 1 else e0);
             d1 = (if 2 ^ 53 * d0 \<le> n0 then 2 * d0 else d0)
         in (round_half_even n0 d1, e1 + k)))"

text \<open>\<^verbatim>\<open>x / y\<close> for whole numbers \<open>x\<close> and \<open>0 < y\<close>, and \<^verbatim>\<open>x * c\<close> for a double
  \<open>x\<close> and a whole number \<open>c\<close>.\<close>

definition double_div :: "nat \<Rightarrow> nat \<Rightarrow> double" where
  "double_div x y = to_double (int x) (int y) 0"

definition double_mul :: "double \<Rightarrow> nat \<Rightarrow> double" where
  "double_mul x c = to_double (fst x * int c) 1 (snd x)"

text \<open>\<^verbatim>\<open>Math.round\<close>: the nearest integer, a half rounded up; that is, the floor of
  \<open>x + 1/2\<close>, computed exactly.\<close>

definition Math_round :: "double \<Rightarrow> int" where
  "Math_round x =
     (if 0 \<le> snd x then fst x * 2 ^ nat (snd x)
      else (2 * fst x + 2 ^ nat (- snd x)) div (2 * 2 ^ nat (- snd x)))"

text \<open>The value of a double, for stating what the operations compute.\<close>

definition dval :: "double \<Rightarrow> real" where
  "dval x = of_int (fst x) * 2 powi (snd x)"

subsection \<open>The percentage\<close>

text \<open>\<open>calculateAttendancePercentage\<close> of the utilities (used by the reports).\<close>

definition calculateAttendancePercentage :: "nat \<Rightarrow> nat \<Rightarrow> int" where
  "calculateAttendancePercentage present totalN =
     (if totalN = 0 then 0 else Math_round (double_mul (double_div present totalN) 100))"

record stats =
  present :: nat
  absent :: nat
  late :: nat

record attendanceStats = stats +
  percentage :: int

text \<open>\<open>handleAttendanceStatsChange\<close> of the attendance page, the observer of the table:
  it returns the new \<open>attendanceStats\<close> state.\<close>

definition handleAttendanceStatsChange :: "stats \<Rightarrow> attendanceStats" where
  "handleAttendanceStatsChange st =
     (let totalN = present st + absent st + late st;
          pct = (if totalN > 0
                 then Math_round (double_mul (double_div (present st) totalN) 100)
                 else 0)
      in \<lparr>present = present st, absent = absent st, late = late st, percentage = pct\<rparr>)"

text \<open>The percentage as the specification words it: the exact quotient times 100,
  rounded to the nearest integer (a half upwards, as its example \<open>62.5 \<mapsto> 63\<close> has it),
  and 0 for an empty denominator.\<close>

definition spec_percentage :: "nat \<Rightarrow> nat \<Rightarrow> nat \<Rightarrow> int" where
  "spec_percentage p a l =
     (if p + a + l = 0 then 0
      else \<lfloor>(of_nat p / of_nat (p + a + l) :: rat) * 100 + 1 / 2\<rfloor>)"

text \<open>The exact value \<open>100 * p / t\<close> lies halfway between two integers.\<close>

definition half_way :: "nat \<Rightarrow> nat \<Rightarrow> bool" where
  "half_way p t = (0 < t \<and> (200 * p + t) mod (2 * t) = 0)"

section \<open>Example states\<close>

definition roster3 :: "student list" where
  "roster3 =
     [\<lparr>student_id = 1, student_name = ''Asha'', rollNumber = ''R1''\<rparr>,
      \<lparr>student_id = 2, student_name = ''Bala'', rollNumber = ''R2''\<rparr>,
      \<lparr>student_id = 3, student_name = ''Chitra'', rollNumber = ''R3''\<rparr>]"

definition committed_record :: "nat \<Rightarrow> string \<Rightarrow> attendance_record" where
  "committed_record sid st =
     \<lparr>studentId = sid, rec_courseId = 7, rec_academicYearId = 4, rec_date = ''2025-03-10'',
      status = st, markedBy = ''faculty''\<rparr>"

text \<open>Roster S1, S2, S3; S1 committed as present; nothing staged.\<close>

definition fresh_ws :: workspace where
  "fresh_ws =
     \<lparr>students = roster3, courseId = 7, academicYearId = 4, currentDate = ''2025-03-10'',
      todayAttendance = [committed_record 1 ''present''], attendanceState = []\<rparr>"

text \<open>The same, with S2 staged as absent.\<close>

definition staged_ws :: workspace where
  "staged_ws = fresh_ws\<lparr>attendanceState := [(2, ''absent'')]\<rparr>"

text \<open>Mark all present, save with success, mark S2 again before the refetched records
  arrive, then the arrival of the records, which hold the saved marks.\<close>

definition saved_then_marked :: "action list" where
  "saved_then_marked =
     [MarkAll, Save (Resolved \<lparr>success = 2, errors = 0\<rparr>), Mark False 2 ''present'']"

definition records_after_save :: "attendance_record list" where
  "records_after_save =
     [committed_record 1 ''present'', committed_record 2 ''present'',
      committed_record 3 ''present'']"

definition active_year :: academicYear where
  "active_year = \<lparr>year_id = 12, year_name = ''2024-25'', isActive = True\<rparr>"

definition past_year :: academicYear where
  "past_year = \<lparr>year_id = 9, year_name = ''2021-22'', isActive = False\<rparr>"

definition year_view :: year_management where
  "year_view = \<lparr>years = [past_year, active_year], isModalOpen = False, editingYear = None\<rparr>"

section \<open>Properties of Map objects\<close>

lemma Map_has_Map_set: "Map_has (Map_set k v m) k' = (k' = k \<or> Map_has m k')"
  by (induction m) (auto simp: Map_has_def)

lemma map_of_Map_set: "map_of (Map_set k v m) = (map_of m)(k \<mapsto> v)"
  by (induction m) (auto simp: fun_eq_iff)

lemma Map_set_same: "map_of m k = Some v \<Longrightarrow> Map_set k v m = m"
  by (induction m) (auto split: if_splits)

section \<open>The loop of markAllPresent\<close>

lemma forEach_student_Nil: "forEach_student ex m [] = m"
  by (simp add: forEach_student_def)

lemma forEach_student_Cons:
  "forEach_student ex m (s # ss) =
     forEach_student ex (if \<not> Map_has ex (student_id s)
                         then Map_set (student_id s) ''present'' m else m) ss"
  by (simp add: forEach_student_def)

lemma map_of_forEach_student:
  "map_of (forEach_student ex m ss) sid =
     (if sid \<in> student_id ` set ss \<and> \<not> Map_has ex sid then Some ''present'' else map_of m sid)"
  by (induction ss arbitrary: m)
     (auto simp: forEach_student_Nil forEach_student_Cons map_of_Map_set)

lemma Map_has_forEach_student:
  "Map_has (forEach_student ex m ss) sid =
     (Map_has m sid \<or> (sid \<in> student_id ` set ss \<and> \<not> Map_has ex sid))"
  by (induction ss arbitrary: m)
     (auto simp: forEach_student_Nil forEach_student_Cons Map_has_Map_set)

text \<open>A Map in which every student the loop would touch is present already is left as
  it is, entry by entry and in its order.\<close>

lemma forEach_student_fixed:
  "(\<And>s. s \<in> set ss \<Longrightarrow> \<not> Map_has ex (student_id s) \<Longrightarrow> map_of m (student_id s) = Some ''present'')
   \<Longrightarrow> forEach_student ex m ss = m"
  by (induction ss) (auto simp: forEach_student_Nil forEach_student_Cons Map_set_same)

lemma forEach_student_twice:
  "forEach_student ex (forEach_student ex m ss) ss = forEach_student ex m ss"
  by (rule forEach_student_fixed) (simp add: map_of_forEach_student)

lemma markAllPresent_state:
  "attendanceState (fst (markAllPresent ws)) =
     forEach_student (existingAttendance ws) (attendanceState ws) (students ws)"
  by (simp add: markAllPresent_def Let_def)

lemma markAllPresent_frame:
  "existingAttendance (fst (markAllPresent ws)) = existingAttendance ws"
  "students (fst (markAllPresent ws)) = students ws"
  by (simp_all add: markAllPresent_def existingAttendance_def Let_def)

section \<open>The table offers marks for unmarked roster students only\<close>

lemma rowActions_iff:
  "(sid, st) \<in> set (rowActions ws) \<longleftrightarrow>
     sid \<in> student_id ` set (students ws) \<and> \<not> isMarked ws sid \<and>
     st \<in> {''present'', ''late'', ''absent''}"
  by (auto simp: rowActions_def)

lemmas example_defs =
  fresh_ws_def staged_ws_def roster3_def committed_record_def existingAttendance_def
  new_Map_def Map_has_def Map_get_def Map_values_def isMarked_def

section \<open>Marking one student\<close>

text \<open>
  C1, as the claim states it, fails: S2 is staged as absent, hence marked, and marking S2
  as present is not rejected. The staged status is overwritten and no toast is raised,
  whether or not React ran the updater at once.
\<close>

theorem markAttendance_staged_counterexample:
  "isMarked staged_ws 2 \<and>
   attendanceState staged_ws = [(2, ''absent'')] \<and>
   markAttendance False staged_ws 2 ''present'' =
     (staged_ws\<lparr>attendanceState := [(2, ''present'')]\<rparr>, [OnAttendanceChange 1 1 0]) \<and>
   markAttendance True staged_ws 2 ''present'' =
     (staged_ws\<lparr>attendanceState := [(2, ''present'')]\<rparr>, [OnAttendanceChange 2 0 0])"
  by (simp add: example_defs markAttendance_def updateStats_def count_status_def Let_def)

text \<open>
  C1, amended: a student with a committed record is rejected by \<open>markAttendance\<close>. The
  component state is unchanged and the only effect is the error toast. For a student
  that is merely staged the guard lies in the table, which offers a mark button only in
  the rows of students that are not marked.
\<close>

theorem markAttendance_committed_rejected:
  "(Map_has (existingAttendance ws) sid \<longrightarrow>
      markAttendance eager ws sid st =
        (ws, [Toast ''Error'' ''Attendance already marked for this student today'' True])) \<and>
   ((sid, st) \<in> set (rowActions ws) \<longrightarrow> \<not> isMarked ws sid)"
  by (simp add: markAttendance_def rowActions_iff)

theorem markAttendance_committed_rejected_witness:
  "Map_has (existingAttendance staged_ws) 1 \<and>
   markAttendance True staged_ws 1 ''late'' =
     (staged_ws, [Toast ''Error'' ''Attendance already marked for this student today'' True]) \<and>
   (3, ''late'') \<in> set (rowActions staged_ws) \<and> \<not> isMarked staged_ws 3"
  using markAttendance_committed_rejected [of staged_ws 1 True "''late''"]
    markAttendance_committed_rejected [of staged_ws 3 True "''late''"]
  by (simp add: example_defs rowActions_def)

text \<open>
  C6, as the claim states it, fails: student 99 is not in the roster, and
  \<open>markAttendance\<close> stages the mark.
\<close>

theorem markAttendance_unknown_counterexample:
  "99 \<notin> set (map student_id (students fresh_ws)) \<and>
   attendanceState fresh_ws = [] \<and>
   attendanceState (fst (markAttendance False fresh_ws 99 ''present'')) = [(99, ''present'')] \<and>
   attendanceState (fst (markAttendance True fresh_ws 99 ''present'')) = [(99, ''present'')]"
  by (simp add: example_defs markAttendance_def Let_def)

text \<open>
  C6, amended: \<open>markAttendance\<close> does not look at the roster. Any student without a
  committed record is staged, in the roster or not. The table has rows, and so mark
  buttons, for the students of the loaded roster only.
\<close>

theorem markAttendance_ignores_roster:
  "(\<not> Map_has (existingAttendance ws) sid \<longrightarrow>
      attendanceState (fst (markAttendance eager ws sid st)) =
        Map_set sid st (attendanceState ws)) \<and>
   ((sid, st) \<in> set (rowActions ws) \<longrightarrow> sid \<in> student_id ` set (students ws))"
  by (simp add: markAttendance_def rowActions_iff Let_def)

theorem markAttendance_ignores_roster_witness:
  "\<not> Map_has (existingAttendance staged_ws) 99 \<and>
   attendanceState (fst (markAttendance False staged_ws 99 ''late'')) =
     [(2, ''absent''), (99, ''late'')] \<and>
   (3, ''absent'') \<in> set (rowActions staged_ws) \<and>
   3 \<in> student_id ` set (students staged_ws)"
  using markAttendance_ignores_roster [of staged_ws 99 False "''late''"]
    markAttendance_ignores_roster [of staged_ws 3 False "''absent''"]
  by (simp add: example_defs rowActions_def)

section \<open>Marking all present\<close>

text \<open>What \<open>markAllPresent\<close> does to each entry of the pending set: a student of the
  roster without a committed record is set to present, whatever was staged for that
  student; every other entry is left as it was.\<close>

lemma markAllPresent_entry:
  "Map_get (attendanceState (fst (markAllPresent ws))) sid =
     (if sid \<in> student_id ` set (students ws) \<and> \<not> Map_has (existingAttendance ws) sid
      then Some ''present'' else Map_get (attendanceState ws) sid)"
  by (simp add: Map_get_def markAllPresent_state map_of_forEach_student)

text \<open>
  C2 at roster S1, S2, S3 with S1 committed as present. The table offers to mark S2
  absent; the click stages it, S2 counts as marked and its row offers no button any
  more. Mark all present then turns the staged absent of S2 into present, although S2
  was already marked: the loop tests the committed records only, where the rows of the
  table test \<open>isMarked\<close>.
\<close>

theorem markAllPresent_overwrites_staged:
  "(2, ''absent'') \<in> set (rowActions fresh_ws) \<and>
   step fresh_ws (Mark False 2 ''absent'') = staged_ws \<and>
   isMarked staged_ws 2 \<and>
   Map_get (attendanceState staged_ws) 2 = Some ''absent'' \<and>
   rowActions staged_ws = [(3, ''present''), (3, ''late''), (3, ''absent'')] \<and>
   attendanceState (fst (markAllPresent staged_ws)) = [(2, ''present''), (3, ''present'')]"
  by (simp add: example_defs rowActions_def markAttendance_def markAllPresent_def
      forEach_student_def Let_def)

text \<open>
  C9: calling \<open>markAllPresent\<close> twice in a row leaves the pending set that one call
  leaves, for every roster, committed set and pending set.
\<close>

theorem markAllPresent_idempotent:
  "attendanceState (fst (markAllPresent (fst (markAllPresent ws)))) =
     attendanceState (fst (markAllPresent ws))"
  by (simp add: markAllPresent_state markAllPresent_frame forEach_student_twice)

theorem markAllPresent_idempotent_witness:
  "attendanceState (fst (markAllPresent (fst (markAllPresent staged_ws)))) =
     [(2, ''present''), (3, ''present'')]"
  using markAllPresent_idempotent [of staged_ws]
  by (simp add: example_defs markAllPresent_def forEach_student_def)

section \<open>The published statistics\<close>

text \<open>
  C3 at the scenario of the specification: roster S1, S2, S3, S1 committed as present,
  nothing staged. \<open>markAllPresent\<close> stages S2 and S3, and the statistics it publishes
  are those of the state before the call (1 present); the counts over the committed set
  and the resulting pending set are 3 present.
\<close>

theorem markAllPresent_publishes_old_counts:
  "attendanceState (fst (markAllPresent fresh_ws)) = [(2, ''present''), (3, ''present'')] \<and>
   snd (markAllPresent fresh_ws) = [OnAttendanceChange 1 0 0] \<and>
   updateStats (fst (markAllPresent fresh_ws)) = OnAttendanceChange 3 0 0"
  by (simp add: example_defs markAllPresent_def forEach_student_def updateStats_def
      count_status_def)

section \<open>Saving\<close>

text \<open>
  C4: when the batch request fails, the component is left as it was, the pending set
  with it, entry for entry; the reason of the failure (or a fixed text when the error
  carries none) is shown in an error toast. Nothing is retried.
\<close>

theorem save_rejected_keeps_pending:
  "fst (save ws (Rejected message)) = ws \<and>
   (\<forall>sid. Map_get (attendanceState (fst (save ws (Rejected message)))) sid =
          Map_get (attendanceState ws) sid) \<and>
   (attendanceState ws \<noteq> [] \<longrightarrow>
      snd (save ws (Rejected message)) =
        [ApiRequest ''POST'' ''/api/attendance/bulk'' (pendingRecords ws),
         Toast ''Error''
           (case message of None \<Rightarrow> ''Failed to save bulk attendance''
            | Some m \<Rightarrow> if m = [] then ''Failed to save bulk attendance'' else m) True])"
  by (simp add: save_def saveAttendance_def bulk_onError_def pendingRecords_def)

theorem save_rejected_keeps_pending_witness:
  "attendanceState staged_ws \<noteq> [] \<and>
   attendanceState (fst (save staged_ws (Rejected (Some ''500: Internal Server Error'')))) =
     [(2, ''absent'')] \<and>
   Toast ''Error'' ''500: Internal Server Error'' True
     \<in> set (snd (save staged_ws (Rejected (Some ''500: Internal Server Error''))))"
  using save_rejected_keeps_pending [of staged_ws "Some ''500: Internal Server Error''"]
  by (simp add: example_defs)

text \<open>
  C5: when the batch request succeeds, whatever the counts of the response, the pending
  set is emptied, the attendance query is invalidated, and a toast shows the number of
  records saved and the number of errors that the response reports.
\<close>

theorem save_resolved_clears_pending:
  "attendanceState ws \<noteq> [] \<Longrightarrow>
   attendanceState (fst (save ws (Resolved d))) = [] \<and>
   InvalidateQueries ''/api/attendance'' \<in> set (snd (save ws (Resolved d))) \<and>
   Toast ''Success''
     (number_toString (success d) @ '' attendance records saved. '' @
      number_toString (errors d) @ '' errors.'') False
     \<in> set (snd (save ws (Resolved d)))"
  by (simp add: save_def saveAttendance_def bulk_onSuccess_def pendingRecords_def)

theorem save_resolved_clears_pending_witness:
  "attendanceState staged_ws \<noteq> [] \<and>
   attendanceState (fst (save staged_ws (Resolved \<lparr>success = 0, errors = 1\<rparr>))) = [] \<and>
   Toast ''Success'' ''0 attendance records saved. 1 errors.'' False
     \<in> set (snd (save staged_ws (Resolved \<lparr>success = 0, errors = 1\<rparr>)))"
  using save_resolved_clears_pending [of staged_ws "\<lparr>success = 0, errors = 1\<rparr>"]
  by (simp add: example_defs number_toString.simps digit_char_def)

section \<open>The committed and the pending set\<close>

lemma disjoint_sets_iff:
  "disjoint_sets ws \<longleftrightarrow>
     (\<forall>sid. \<not> (Map_has (existingAttendance ws) sid \<and> Map_has (attendanceState ws) sid))"
  by (auto simp: disjoint_sets_def Map_has_def list_all_iff)

lemma disjoint_markAttendance:
  "disjoint_sets ws \<Longrightarrow> disjoint_sets (fst (markAttendance eager ws sid st))"
  by (auto simp: disjoint_sets_iff markAttendance_def Let_def existingAttendance_def
      Map_has_Map_set)

lemma disjoint_markAllPresent:
  "disjoint_sets ws \<Longrightarrow> disjoint_sets (fst (markAllPresent ws))"
  unfolding disjoint_sets_iff markAllPresent_state markAllPresent_frame
  by (auto simp: Map_has_forEach_student)

lemma save_cases:
  "fst (save ws out) = ws \<or>
   (attendanceState (fst (save ws out)) = [] \<and>
    todayAttendance (fst (save ws out)) = todayAttendance ws)"
  by (cases out)
     (auto simp: save_def saveAttendance_def bulk_onError_def bulk_onSuccess_def)

lemma disjoint_save:
  assumes "disjoint_sets ws"
  shows "disjoint_sets (fst (save ws out))"
proof -
  from save_cases [of ws out] show ?thesis
  proof
    assume "fst (save ws out) = ws"
    with assms show ?thesis by simp
  next
    assume "attendanceState (fst (save ws out)) = [] \<and>
      todayAttendance (fst (save ws out)) = todayAttendance ws"
    then show ?thesis by (simp add: disjoint_sets_iff Map_has_def)
  qed
qed

text \<open>The three handlers keep the two sets disjoint, as far as the committed records
  that the component has fetched go.\<close>

lemma disjoint_step:
  "handler_action a \<Longrightarrow> disjoint_sets ws \<Longrightarrow> disjoint_sets (step ws a)"
  by (cases a) (simp_all add: disjoint_markAttendance disjoint_markAllPresent disjoint_save)

lemma disjoint_run:
  "list_all handler_action acts \<Longrightarrow> disjoint_sets ws \<Longrightarrow> disjoint_sets (run ws acts)"
  unfolding run_def by (induction acts arbitrary: ws) (simp_all add: disjoint_step)

text \<open>
  C8 at roster S1, S2, S3 with S1 committed as present and nothing staged, a state in
  which the two sets are disjoint. Mark all present stages S2 and S3, and the save
  succeeds: the pending set is emptied while the committed records are still those of
  the last fetch, so the row of S2 shows as not marked and offers its buttons. A mark
  of S2 at that moment is staged. When the refetched records arrive, with the saved
  marks of S2 and S3, S2 has an entry in the committed set and in the pending set, and
  the next save would submit S2 a second time.
\<close>

theorem mark_before_refetch_in_both_sets:
  "attendanceState fresh_ws = [] \<and> disjoint_sets fresh_ws \<and>
   (2, ''present'') \<in> set (rowActions (run fresh_ws [MarkAll, Save (Resolved \<lparr>success = 2, errors = 0\<rparr>)])) \<and>
   attendanceState (run fresh_ws saved_then_marked) = [(2, ''present'')] \<and>
   Map_has (existingAttendance (run fresh_ws (saved_then_marked @ [Refetch records_after_save]))) 2 \<and>
   Map_has (attendanceState (run fresh_ws (saved_then_marked @ [Refetch records_after_save]))) 2 \<and>
   \<not> disjoint_sets (run fresh_ws (saved_then_marked @ [Refetch records_after_save])) \<and>
   map studentId
     (pendingRecords (run fresh_ws (saved_then_marked @ [Refetch records_after_save]))) = [2]"
  by (simp add: example_defs saved_then_marked_def records_after_save_def run_def
      disjoint_sets_def rowActions_def markAttendance_def markAllPresent_def
      forEach_student_def save_def saveAttendance_def bulk_onSuccess_def pendingRecords_def
      refetch_def Let_def)

section \<open>Deleting an academic year\<close>

text \<open>
  In the year management component the deletion of the active year is rejected: the
  error toast is the only effect, so no request is sent, and the component state with
  its collection of years is unchanged. There a DELETE request is sent only for a year
  that is not active and only when the user has confirmed.
\<close>

lemma handleDeleteYear_guarded:
  "(isActive year \<longrightarrow>
      handleDeleteYear confirm ym year =
        (ym, [Toast ''Error'' ''Cannot delete the active academic year'' True])) \<and>
   ((\<exists>fx \<in> set (snd (handleDeleteYear confirm ym year)). is_delete_request fx) \<longrightarrow>
      \<not> isActive year \<and> confirm (delete_confirm_text year)) \<and>
   years (fst (handleDeleteYear confirm ym year)) = years ym"
  by (auto simp: handleDeleteYear_def is_delete_request_def deleteYearMutation_mutate_def)

text \<open>
  C10 at the active year 2024-25 (id 12). The year management component rejects its
  deletion with the error toast. The delete button of the same year on the admin page
  sends the DELETE request at once: that page tests neither \<open>isActive\<close> nor asks for
  confirmation.
\<close>

theorem admin_deletes_active_year:
  "isActive active_year \<and>
   handleDeleteYear (\<lambda>t. True) year_view active_year =
     (year_view, [Toast ''Error'' ''Cannot delete the active academic year'' True]) \<and>
   Admin_deleteYear_onClick active_year =
     [ApiRequest ''DELETE'' ''/api/academic-years/12'' []] \<and>
   list_ex is_delete_request (Admin_deleteYear_onClick active_year)"
  by (simp add: active_year_def handleDeleteYear_def Admin_deleteYear_onClick_def
      deleteYearMutation_mutate_def is_delete_request_def number_toString.simps digit_char_def)

section \<open>The percentage in double arithmetic\<close>

subsection \<open>Rounding to a double\<close>

lemma bit_length_bounds:
  "0 < n \<Longrightarrow> 2 ^ bit_length n \<le> 2 * n \<and> n < 2 ^ bit_length n"
proof (induction n rule: bit_length.induct)
  case (1 n)
  show ?case
  proof (cases "n div 2 \<le> 0")
    case True
    with "1.prems" have "n = 1" by linarith
    then show ?thesis by (simp add: bit_length.simps)
  next
    case False
    then have pos: "0 < n div 2" by simp
    from "1.IH" [OF _ pos] "1.prems"
    have ih: "2 ^ bit_length (n div 2) \<le> 2 * (n div 2)" "n div 2 < 2 ^ bit_length (n div 2)"
      by simp_all
    have bl: "bit_length n = Suc (bit_length (n div 2))"
      using "1.prems" by (simp add: bit_length.simps [of n])
    from ih show ?thesis unfolding bl by (simp; linarith)
  qed
qed

lemma round_half_even_error:
  assumes "0 < d"
  shows "\<bar>real_of_int (round_half_even n d) - real_of_int n / real_of_int d\<bar> \<le> 1 / 2"
proof -
  define f where "f = n div d"
  define r where "r = n mod d"
  have n: "n = d * f + r" by (simp add: f_def r_def)
  have r: "0 \<le> r" "r < d" using assms by (simp_all add: r_def)
  have q: "real_of_int n / real_of_int d = real_of_int f + real_of_int r / real_of_int d"
    using assms by (simp add: n field_simps)
  have lo: "2 * r < d \<Longrightarrow> real_of_int r / real_of_int d < 1 / 2"
    using assms by (simp add: field_simps)
  have hi: "d \<le> 2 * r \<Longrightarrow> 1 / 2 \<le> real_of_int r / real_of_int d"
    using assms by (simp add: field_simps)
  have eq: "d = 2 * r \<Longrightarrow> real_of_int r / real_of_int d = 1 / 2"
    using assms by (simp add: field_simps)
  have ge0: "0 \<le> real_of_int r / real_of_int d" using r assms by simp
  have lt1: "real_of_int r / real_of_int d < 1" using r assms by simp
  consider "2 * r < d" | "d < 2 * r" | "d = 2 * r" by linarith
  then show ?thesis
  proof cases
    case 1
    then have "round_half_even n d = f" by (simp add: round_half_even_def f_def r_def Let_def)
    with lo [OF 1] ge0 show ?thesis by (simp add: q)
  next
    case 2
    then have "round_half_even n d = f + 1" by (simp add: round_half_even_def f_def r_def Let_def)
    with hi [of] 2 lt1 show ?thesis by (simp add: q)
  next
    case 3
    have h: "real_of_int n / real_of_int d = real_of_int f + 1 / 2"
      by (simp only: q eq [OF 3])
    from 3 have "round_half_even n d = f \<or> round_half_even n d = f + 1"
      by (simp add: round_half_even_def f_def r_def Let_def)
    then show ?thesis
    proof
      assume a: "round_half_even n d = f"
      show ?thesis unfolding a h by simp
    next
      assume a: "round_half_even n d = f + 1"
      show ?thesis unfolding a h by simp
    qed
  qed
qed

lemma Math_round_floor: "Math_round x = \<lfloor>dval x + 1 / 2\<rfloor>"
proof (cases "0 \<le> snd x")
  case True
  then have "dval x = real_of_int (fst x * 2 ^ nat (snd x))"
    by (simp add: dval_def power_int_def)
  then have "\<lfloor>dval x + 1 / 2\<rfloor> = fst x * 2 ^ nat (snd x)"
    by (intro floor_unique) simp_all
  with True show ?thesis by (simp add: Math_round_def)
next
  case False
  define j where "j = nat (- snd x)"
  have "dval x = real_of_int (fst x) / 2 ^ j"
    using False by (simp add: dval_def power_int_def j_def field_simps)
  then have "dval x + 1 / 2 = real_of_int (2 * fst x + 2 ^ j) / real_of_int (2 * 2 ^ j)"
    by (simp add: field_simps)
  then have "\<lfloor>dval x + 1 / 2\<rfloor> = (2 * fst x + 2 ^ j) div (2 * 2 ^ j)"
    by (simp only: floor_divide_of_int_eq)
  with False show ?thesis by (simp add: Math_round_def j_def)
qed

lemma power_int_split:
  "(2::real) powi (int la - int lb - 53) = 2 ^ la / 2 ^ lb / 2 ^ 53"
proof -
  have "(2::real) powi (int la - int lb - 53) = 2 powi (int la) / 2 powi (int lb) / 2 powi 53"
    by (simp add: power_int_diff)
  then show ?thesis by simp
qed

lemma to_double_shape:
  assumes a: "0 < a" and b: "0 < b"
  shows "\<exists>n d e. 0 < d \<and> to_double a b k = (round_half_even n d, e + k) \<and>
           real_of_int n / real_of_int d = real_of_int a / real_of_int b / 2 powi e \<and>
           2 ^ 52 \<le> real_of_int n / real_of_int d \<and> real_of_int n / real_of_int d < 2 ^ 53"
proof -
  define e0 where "e0 = int (bit_length a) - int (bit_length b) - 53"
  define n0 where "n0 = (if e0 < 0 then a * 2 ^ nat (- e0) else a)"
  define d0 where "d0 = (if e0 < 0 then b else b * 2 ^ nat e0)"
  define e1 where "e1 = (if 2 ^ 53 * d0 \<le> n0 then e0 + 1 else e0)"
  define d1 where "d1 = (if 2 ^ 53 * d0 \<le> n0 then 2 * d0 else d0)"
  have td: "to_double a b k = (round_half_even n0 d1, e1 + k)"
    using a by (simp add: to_double_def Let_def e0_def n0_def d0_def e1_def d1_def)
  have d0: "0 < d0" using b by (simp add: d0_def)
  have d1: "0 < d1" using d0 by (simp add: d1_def)
  have r0: "real_of_int n0 / real_of_int d0 = real_of_int a / real_of_int b / 2 powi e0"
  proof (cases "e0 < 0")
    case True
    then have pw: "(2::real) powi e0 = inverse (2 ^ nat (- e0))"
      by (simp add: power_int_def power_one_over inverse_eq_divide)
    show ?thesis unfolding pw using True by (simp add: n0_def d0_def field_simps)
  next
    case False
    then have pw: "(2::real) powi e0 = 2 ^ nat e0" by (simp add: power_int_def)
    show ?thesis unfolding pw using False by (simp add: n0_def d0_def field_simps)
  qed
  have lb: "2 ^ 52 < real_of_int a / real_of_int b / 2 powi e0"
  proof -
    from bit_length_bounds [OF a] have "(2::int) ^ bit_length a \<le> 2 * a" by simp
    then have "real_of_int (2 ^ bit_length a) \<le> real_of_int (2 * a)" by (rule of_int_le_iff [THEN iffD2])
    then have A: "(2::real) ^ bit_length a \<le> 2 * real_of_int a" by simp
    from bit_length_bounds [OF b] have "b < 2 ^ bit_length b" by simp
    then have "real_of_int b < real_of_int (2 ^ bit_length b)" by (rule of_int_less_iff [THEN iffD2])
    then have B: "real_of_int b < 2 ^ bit_length b" by simp
    have Bpos: "0 < real_of_int b" using b by simp
    have "2 ^ bit_length a * real_of_int b < 2 ^ bit_length a * 2 ^ bit_length b"
      using B by simp
    also have "\<dots> \<le> 2 * real_of_int a * 2 ^ bit_length b"
      using A by (simp add: mult_right_mono)
    finally have key: "2 ^ bit_length a * real_of_int b < 2 * real_of_int a * 2 ^ bit_length b" .
    have "real_of_int a / real_of_int b / 2 powi e0 =
          real_of_int a * 2 ^ bit_length b * 2 ^ 53 / (real_of_int b * 2 ^ bit_length a)"
      unfolding e0_def power_int_split by (simp add: field_simps)
    moreover have "2 ^ 52 < real_of_int a * 2 ^ bit_length b * 2 ^ 53 / (real_of_int b * 2 ^ bit_length a)"
    proof -
      have "0 < real_of_int b * 2 ^ bit_length a" using Bpos by simp
      moreover have "2 ^ 52 * (real_of_int b * 2 ^ bit_length a) < real_of_int a * 2 ^ bit_length b * 2 ^ 53"
        using key by (simp add: mult.commute mult.assoc)
      ultimately show ?thesis by (simp only: pos_less_divide_eq)
    qed
    ultimately show ?thesis by simp
  qed
  have ub: "real_of_int a / real_of_int b / 2 powi e0 < 2 ^ 54"
  proof -
    from bit_length_bounds [OF a] have "a < 2 ^ bit_length a" by simp
    then have "real_of_int a < real_of_int (2 ^ bit_length a)" by (rule of_int_less_iff [THEN iffD2])
    then have A: "real_of_int a < 2 ^ bit_length a" by simp
    from bit_length_bounds [OF b] have "(2::int) ^ bit_length b \<le> 2 * b" by simp
    then have "real_of_int (2 ^ bit_length b) \<le> real_of_int (2 * b)" by (rule of_int_le_iff [THEN iffD2])
    then have B: "(2::real) ^ bit_length b \<le> 2 * real_of_int b" by simp
    have Bpos: "0 < real_of_int b" using b by simp
    have "real_of_int a * 2 ^ bit_length b < 2 ^ bit_length a * 2 ^ bit_length b"
      using A by simp
    also have "\<dots> \<le> 2 ^ bit_length a * (2 * real_of_int b)"
      using B by (simp add: mult_left_mono)
    finally have key: "real_of_int a * 2 ^ bit_length b < 2 ^ bit_length a * (2 * real_of_int b)" .
    have "real_of_int a / real_of_int b / 2 powi e0 =
          real_of_int a * 2 ^ bit_length b * 2 ^ 53 / (real_of_int b * 2 ^ bit_length a)"
      unfolding e0_def power_int_split by (simp add: field_simps)
    moreover have "real_of_int a * 2 ^ bit_length b * 2 ^ 53 / (real_of_int b * 2 ^ bit_length a) < 2 ^ 54"
    proof -
      have "0 < real_of_int b * 2 ^ bit_length a" using Bpos by simp
      moreover have "real_of_int a * 2 ^ bit_length b * 2 ^ 53 < 2 ^ 54 * (real_of_int b * 2 ^ bit_length a)"
        using key by (simp add: mult.commute mult.assoc)
      ultimately show ?thesis by (simp only: pos_divide_less_eq)
    qed
    ultimately show ?thesis by simp
  qed
  have r1: "real_of_int n0 / real_of_int d1 = real_of_int a / real_of_int b / 2 powi e1 \<and>
            2 ^ 52 \<le> real_of_int n0 / real_of_int d1 \<and> real_of_int n0 / real_of_int d1 < 2 ^ 53"
  proof (cases "2 ^ 53 * d0 \<le> n0")
    case True
    then have "real_of_int (2 ^ 53 * d0) \<le> real_of_int n0" by (rule of_int_le_iff [THEN iffD2])
    then have "2 ^ 53 * real_of_int d0 \<le> real_of_int n0" by simp
    then have "2 ^ 52 * (2 * real_of_int d0) \<le> real_of_int n0" by simp
    then have ge: "2 ^ 52 \<le> real_of_int n0 / (2 * real_of_int d0)"
      using d0 by (simp add: pos_le_divide_eq)
    have "(2::real) powi (e0 + 1) = 2 powi e0 * 2" by (simp add: power_int_add)
    then have "real_of_int a / real_of_int b / 2 powi (e0 + 1) = real_of_int n0 / real_of_int d0 / 2"
      by (simp add: r0)
    moreover have "real_of_int n0 / (2 * real_of_int d0) < 2 ^ 53"
      using ub r0 by simp
    ultimately show ?thesis using True ge by (simp add: e1_def d1_def)
  next
    case False
    then have "n0 < 2 ^ 53 * d0" by simp
    then have "real_of_int n0 < real_of_int (2 ^ 53 * d0)" by (rule of_int_less_iff [THEN iffD2])
    then have "real_of_int n0 < 2 ^ 53 * real_of_int d0" by simp
    then have "real_of_int n0 / real_of_int d0 < 2 ^ 53"
      using d0 by (simp add: pos_divide_less_eq)
    with False r0 lb show ?thesis by (simp add: e1_def d1_def)
  qed
  with td d1 show ?thesis by blast
qed


text \<open>The significand that \<open>to_double\<close> returns has 53 bits (or is \<open>2 ^ 53\<close>, when
  the rounding carries).\<close>

lemma to_double_significand:
  assumes a: "0 < a" and b: "0 < b"
  shows "2 ^ 52 \<le> fst (to_double a b k) \<and> fst (to_double a b k) \<le> 2 ^ 53"
proof -
  from to_double_shape [OF a b, of k] obtain n d e where
    d: "0 < d" and td: "to_double a b k = (round_half_even n d, e + k)" and
    lo: "2 ^ 52 \<le> real_of_int n / real_of_int d" and
    hi: "real_of_int n / real_of_int d < 2 ^ 53"
    by blast
  from round_half_even_error [OF d, of n] lo hi
  have "2 ^ 52 - 1 / 2 \<le> real_of_int (round_half_even n d)"
    "real_of_int (round_half_even n d) < 2 ^ 53 + 1 / 2"
    by linarith+
  then have "2 ^ 52 - 1 < real_of_int (round_half_even n d)"
    "real_of_int (round_half_even n d) < 2 ^ 53 + 1"
    by linarith+
  then have "real_of_int (2 ^ 52 - 1) < real_of_int (round_half_even n d)"
    "real_of_int (round_half_even n d) < real_of_int (2 ^ 53 + 1)"
    by simp_all
  then have "2 ^ 52 - 1 < round_half_even n d" "round_half_even n d < 2 ^ 53 + 1"
    by (simp_all only: of_int_less_iff)
  then show ?thesis by (simp add: td)
qed

lemma to_double_error:
  assumes a: "0 \<le> a" and b: "0 < b"
  shows "\<bar>dval (to_double a b k) - real_of_int a / real_of_int b * 2 powi k\<bar>
           \<le> real_of_int a / real_of_int b * 2 powi k / 2 ^ 53"
proof (cases "a = 0")
  case True
  then show ?thesis by (simp add: to_double_def dval_def)
next
  case False
  with a have "0 < a" by simp
  from to_double_shape [OF this b, of k] obtain n d e where
    d: "0 < d" and td: "to_double a b k = (round_half_even n d, e + k)" and
    r: "real_of_int n / real_of_int d = real_of_int a / real_of_int b / 2 powi e" and
    big: "2 ^ 52 \<le> real_of_int n / real_of_int d"
    by blast
  define X where "X = real_of_int n / real_of_int d"
  define P where "P = (2::real) powi (e + k)"
  have P: "0 < P" by (simp add: P_def)
  have x: "real_of_int a / real_of_int b * 2 powi k = X * P"
    by (simp add: X_def P_def r power_int_add)
  have dv: "dval (to_double a b k) = real_of_int (round_half_even n d) * P"
    by (simp add: td dval_def P_def)
  have "\<bar>real_of_int (round_half_even n d) * P - X * P\<bar> =
        \<bar>real_of_int (round_half_even n d) - X\<bar> * P"
    using P by (simp add: abs_mult left_diff_distrib [symmetric])
  also have "\<dots> \<le> 1 / 2 * P"
    using round_half_even_error [OF d, of n] P by (simp add: X_def)
  also have "\<dots> \<le> X * P / 2 ^ 53"
  proof -
    have "1 / 2 \<le> X / 2 ^ 53" using big by (simp add: X_def)
    then have "1 / 2 * P \<le> X / 2 ^ 53 * P" using P by (rule_tac mult_right_mono) simp_all
    then show ?thesis by simp
  qed
  finally show ?thesis by (simp only: dv x)
qed

subsection \<open>The percentage against the exact value\<close>

lemma floor_near:
  assumes D: "0 < D" and r: "N mod D \<noteq> 0"
    and z: "\<bar>z - real_of_int N / real_of_int D\<bar> < 1 / real_of_int D"
  shows "\<lfloor>z\<rfloor> = N div D"
proof -
  define k where "k = N div D"
  define r where "r = N mod D"
  have N: "N = D * k + r" by (simp add: k_def r_def)
  have "0 \<le> r" "r < D" using D by (simp_all add: r_def)
  with r have r1: "1 \<le> r" "r \<le> D - 1" by (simp_all add: r_def)
  have q: "real_of_int N / real_of_int D = real_of_int k + real_of_int r / real_of_int D"
    using D by (simp add: N field_simps)
  have lo: "1 / real_of_int D \<le> real_of_int r / real_of_int D"
    using r1 D by (simp add: divide_right_mono)
  have "real_of_int r \<le> real_of_int D - 1" using r1 by linarith
  then have "real_of_int r / real_of_int D \<le> (real_of_int D - 1) / real_of_int D"
    using D by (simp add: divide_right_mono)
  also have "\<dots> = 1 - 1 / real_of_int D" using D by (simp add: field_simps)
  finally have hi: "real_of_int r / real_of_int D \<le> 1 - 1 / real_of_int D" .
  from z have "real_of_int N / real_of_int D - 1 / real_of_int D < z"
    "z < real_of_int N / real_of_int D + 1 / real_of_int D"
    by linarith+
  with lo hi have "real_of_int k \<le> z" "z < real_of_int k + 1" unfolding q by linarith+
  then show ?thesis unfolding k_def [symmetric] by (rule floor_unique)
qed

lemma fst_nonneg:
  assumes "0 \<le> dval x"
  shows "0 \<le> fst x"
proof (rule ccontr)
  assume "\<not> 0 \<le> fst x"
  then have "real_of_int (fst x) < 0" by simp
  moreover have "0 < (2::real) powi snd x" by simp
  ultimately have "real_of_int (fst x) * 2 powi snd x < 0" by (rule mult_neg_pos)
  with assms show False by (simp add: dval_def)
qed

lemma double_percentage_error:
  assumes t: "0 < t" and pt: "p \<le> t"
  shows "\<bar>dval (double_mul (double_div p t) 100) - 100 * real p / real t\<bar> \<le> 300 / 2 ^ 53"
proof -
  define q where "q = real p / real t"
  define y where "y = dval (double_div p t)"
  define z where "z = dval (double_mul (double_div p t) 100)"
  have q: "0 \<le> q" "q \<le> 1" using t pt by (simp_all add: q_def)
  have yq: "\<bar>y - q\<bar> \<le> q / 2 ^ 53"
    using to_double_error [of "int p" "int t" 0] t by (simp add: y_def q_def double_div_def)
  have "q / 2 ^ 53 \<le> q" "q / 2 ^ 53 \<le> 1 / 2 ^ 53" using q by (simp_all add: field_simps)
  with yq q have y: "\<bar>y - q\<bar> \<le> 1 / 2 ^ 53" "0 \<le> y" "y \<le> 2" by linarith+
  have m: "0 \<le> fst (double_div p t)" using y(2) unfolding y_def by (rule fst_nonneg)
  define m where "m = fst (double_div p t)"
  define e where "e = snd (double_div p t)"
  have zt: "z = dval (to_double (m * 100) 1 e)"
    by (simp add: z_def double_mul_def m_def e_def)
  have v: "real_of_int (m * 100) / real_of_int 1 * 2 powi e = 100 * y"
    by (simp add: y_def dval_def m_def e_def)
  have "\<bar>dval (to_double (m * 100) 1 e) - real_of_int (m * 100) / real_of_int 1 * 2 powi e\<bar>
          \<le> real_of_int (m * 100) / real_of_int 1 * 2 powi e / 2 ^ 53"
    by (rule to_double_error) (use m in \<open>simp_all add: m_def\<close>)
  then have "\<bar>z - 100 * y\<bar> \<le> 100 * y / 2 ^ 53"
    by (simp only: v zt)
  moreover have "100 * y / 2 ^ 53 \<le> 200 / 2 ^ 53" using y by simp
  ultimately have "\<bar>z - 100 * y\<bar> \<le> 200 / 2 ^ 53" by linarith
  with y(1) have "\<bar>z - 100 * q\<bar> \<le> 300 / 2 ^ 53" by linarith
  then show ?thesis by (simp add: z_def q_def)
qed

lemma percentage_not_half_way:
  assumes t: "0 < t" and pt: "p \<le> t" and small: "t < 2 ^ 40" and nh: "\<not> half_way p t"
  shows "Math_round (double_mul (double_div p t) 100) = (200 * int p + int t) div (2 * int t)"
proof -
  define z where "z = dval (double_mul (double_div p t) 100)"
  have D: "0 < 2 * int t" using t by simp
  have r: "(200 * int p + int t) mod (2 * int t) \<noteq> 0"
  proof
    assume "(200 * int p + int t) mod (2 * int t) = 0"
    then have "int ((200 * p + t) mod (2 * t)) = 0" by (simp add: zmod_int)
    with nh t show False by (simp add: half_way_def)
  qed
  have x: "real_of_int (200 * int p + int t) / real_of_int (2 * int t) = 100 * real p / real t + 1 / 2"
    using t by (simp add: field_simps)
  have "real t < 2 ^ 40" using small by (metis of_nat_less_iff of_nat_numeral of_nat_power)
  then have "2 * real t < 2 ^ 41" by simp
  then have "1 / 2 ^ 41 < 1 / (2 * real t)" using t by (simp add: field_simps)
  moreover have "(300::real) / 2 ^ 53 < 1 / 2 ^ 41" by simp
  ultimately have "300 / 2 ^ 53 < 1 / (2 * real t)" by linarith
  with double_percentage_error [OF t pt]
  have "\<bar>z - 100 * real p / real t\<bar> < 1 / (2 * real t)" by (simp add: z_def)
  then have "\<bar>(z + 1 / 2) - real_of_int (200 * int p + int t) / real_of_int (2 * int t)\<bar>
             < 1 / real_of_int (2 * int t)"
    unfolding x by simp
  from floor_near [OF D r this] show ?thesis by (simp add: Math_round_floor z_def)
qed

lemma exact_percentage_quotient:
  "0 < t \<Longrightarrow>
   (of_nat p / of_nat t :: rat) * 100 + 1 / 2 =
     of_int (200 * int p + int t) / of_int (2 * int t)"
  by (simp add: field_simps)

lemma spec_percentage_div:
  assumes t: "0 < p + a + l"
  shows "spec_percentage p a l = (200 * int p + int (p + a + l)) div (2 * int (p + a + l))"
proof -
  have "\<lfloor>(of_nat p / of_nat (p + a + l) :: rat) * 100 + 1 / 2\<rfloor> =
        (200 * int p + int (p + a + l)) div (2 * int (p + a + l))"
    by (simp only: exact_percentage_quotient [OF t] floor_divide_of_int_eq)
  with t show ?thesis by (simp only: spec_percentage_def) simp
qed

lemmas double_eval =
  Math_round_def double_mul_def double_div_def to_double_def bit_length.simps
  round_half_even_def Let_def


lemma floor_near_int:
  assumes "\<bar>z - real_of_int k\<bar> < 1"
  shows "\<lfloor>z\<rfloor> = k \<or> \<lfloor>z\<rfloor> = k - 1"
proof -
  from assms have "real_of_int (k - 1) \<le> z" "z < real_of_int (k + 1)" by simp_all
  then have "k - 1 \<le> \<lfloor>z\<rfloor>" "\<lfloor>z\<rfloor> < k + 1" by (simp_all only: le_floor_iff floor_less_iff)
  then show ?thesis by linarith
qed

lemma percentage_half_way_near:
  assumes t: "0 < t" and pt: "p \<le> t" and h: "half_way p t"
  shows "Math_round (double_mul (double_div p t) 100) = (200 * int p + int t) div (2 * int t) \<or>
         Math_round (double_mul (double_div p t) 100) = (200 * int p + int t) div (2 * int t) - 1"
proof -
  define z where "z = dval (double_mul (double_div p t) 100)"
  define k where "k = (200 * int p + int t) div (2 * int t)"
  from h have "int ((200 * p + t) mod (2 * t)) = 0" by (simp add: half_way_def)
  then have "(200 * int p + int t) mod (2 * int t) = 0" by (simp add: zmod_int)
  then have "200 * int p + int t = 2 * int t * k" unfolding k_def by auto
  then have "real_of_int (200 * int p + int t) = real_of_int (2 * int t * k)" by (rule arg_cong)
  then have "200 * real p + real t = 2 * real t * real_of_int k" by simp
  then have x: "100 * real p / real t + 1 / 2 = real_of_int k" using t by (simp add: field_simps)
  have "(300::real) / 2 ^ 53 < 1" by simp
  with double_percentage_error [OF t pt] have "\<bar>z - 100 * real p / real t\<bar> < 1"
    unfolding z_def by linarith
  then have "\<bar>(z + 1 / 2) - real_of_int k\<bar> < 1" unfolding x [symmetric] by simp
  from floor_near_int [OF this] show ?thesis by (simp add: Math_round_floor z_def k_def)
qed

text \<open>The attendance page and the utility compute the same percentage.\<close>

lemma percentage_two_places:
  "percentage (handleAttendanceStatsChange st) =
     calculateAttendancePercentage (present st) (present st + absent st + late st)"
  by (simp add: handleAttendanceStatsChange_def calculateAttendancePercentage_def Let_def)

text \<open>
  For fewer than \<open>2 ^ 40\<close> marked students (the counts are numbers of entries of
  Maps, far below that) the percentage of the code is the exact value rounded to the
  nearest integer, or one less; and it is one less only when the exact value lies
  halfway between two integers.
\<close>

lemma percentage_all_inputs:
  assumes small: "p + a + l < 2 ^ 40"
  shows "calculateAttendancePercentage p (p + a + l) = spec_percentage p a l \<or>
         (half_way p (p + a + l) \<and>
          calculateAttendancePercentage p (p + a + l) = spec_percentage p a l - 1)"
proof (cases "p + a + l = 0")
  case True
  then show ?thesis by (simp add: calculateAttendancePercentage_def spec_percentage_def)
next
  case False
  then have t: "0 < p + a + l" by simp
  have pt: "p \<le> p + a + l" by simp
  have c: "calculateAttendancePercentage p (p + a + l) =
           Math_round (double_mul (double_div p (p + a + l)) 100)"
    using False by (simp only: calculateAttendancePercentage_def if_False)
  show ?thesis
  proof (cases "half_way p (p + a + l)")
    case True
    from percentage_half_way_near [OF t pt True] True show ?thesis
      unfolding c spec_percentage_div [OF t] by blast
  next
    case False
    from percentage_not_half_way [OF t pt small False] show ?thesis
      unfolding c spec_percentage_div [OF t] by simp
  qed
qed

text \<open>
  C7 at 23 present and 17 absent: the exact value is 57.5, which rounds to 58. The
  double nearest to 23/40 lies below it, its product with 100 is the double
  57.49999999999999, and both \<open>handleAttendanceStatsChange\<close> and
  \<open>calculateAttendancePercentage\<close> give 57. The example of the specification, 5
  present of 8 marked, gives 63.
\<close>

theorem percentage_at_23_of_40:
  "percentage (handleAttendanceStatsChange \<lparr>present = 23, absent = 17, late = 0\<rparr>) = 57 \<and>
   calculateAttendancePercentage 23 40 = 57 \<and>
   double_div 23 40 = (5179139571476070, - 53) \<and>
   double_mul (double_div 23 40) 100 = (8092405580431359, - 47) \<and>
   spec_percentage 23 17 0 = 58 \<and>
   percentage (handleAttendanceStatsChange \<lparr>present = 5, absent = 2, late = 1\<rparr>) = 63"
  by (simp add: handleAttendanceStatsChange_def calculateAttendancePercentage_def
      spec_percentage_def double_eval)

end
